theory Spec2Isabelle
  imports Complex_Main
begin

section \<open>Message data consumed by SmartBridge.ts\<close>

text \<open>
  Modelled from the spec: the modules \<^verbatim>\<open>Messages\<close> and \<^verbatim>\<open>MessageBodyTypes\<close> are imported by
  SmartBridge.ts but are not part of the sources at hand. A response body is a closed set of
  tagged variants, one per discriminant key that SmartBridge.ts probes (\<^verbatim>\<open>Device\<close>,
  \<^verbatim>\<open>Devices\<close>, \<^verbatim>\<open>ZoneStatus\<close>, \<^verbatim>\<open>ButtonGroup\<close>, \<^verbatim>\<open>Button\<close>), plus the variant of a
  body that carries none of them. The records hold the fields that SmartBridge.ts reads.
\<close>

text \<open>
  A JavaScript \<^verbatim>\<open>number\<close>: every finite double is a rational number; the three non-finite
  values are kept apart.
\<close>

datatype number = Num rat | NaN | PosInfinity | NegInfinity

record Href =
  href :: string

record Firmware =
  DisplayName :: string

record FirmwareImage =
  Firmware :: Firmware

record Device = Href +
  FullyQualifiedName :: "string list"
  SerialNumber :: string
  ModelNumber :: string
  FirmwareImage :: FirmwareImage
  LocalZones :: "Href list"
  ButtonGroups :: "Href list"

record ZoneStatus = Href +
  Tilt :: number

record ButtonGroup = Href +
  Buttons :: "Href list"

record Button = Href +
  ButtonNumber :: nat
  Name :: string

datatype BodyType =
    OneDeviceDefinition Device
  | MultipleDeviceDefinition "Device list"
  | OneZoneStatus ZoneStatus
  | OneButtonGroupDefinition ButtonGroup
  | OneButtonDefinition Button
  | ExceptionDetail string

record ResponseHeader =
  StatusCode :: string
  Url :: string

record Response =
  CommuniqueType :: string
  Header :: ResponseHeader
  Body :: "BodyType option"

text \<open>The body that \<^verbatim>\<open>setBlindsTilt\<close> sends.\<close>

record TiltParameters =
  TiltParam :: number

record Command =
  CommandType :: string
  TiltParameters :: TiltParameters

record RequestBody =
  Command :: Command

text \<open>
  What a rejected promise or a thrown exception carries: an \<^verbatim>\<open>Error\<close> object built by
  SmartBridge.ts with its message, the \<^verbatim>\<open>TypeError\<close> that the runtime throws when a property
  of \<^verbatim>\<open>undefined\<close> is read, or a rejection reason that comes from elsewhere (the Transport,
  or the string \<^verbatim>\<open>'Ping timeout'\<close>).
\<close>

datatype error = Error string | TypeError | Rejected string

text \<open>
  The Transport's \<^verbatim>\<open>request(requestType, url, body?)\<close>, seen from an \<^verbatim>\<open>await\<close>: the response
  it resolves with, or the reason it rejects with.
\<close>

type_synonym LeapClient = "string \<Rightarrow> string \<Rightarrow> RequestBody option \<Rightarrow> error + Response"

section \<open>Runtime library functions used by the Command Layer\<close>

text \<open>
  \<^verbatim>\<open>Array.prototype.join\<close>: the result starts empty; every element after the first is
  preceded by the separator.
\<close>

fun join_loop :: "string \<Rightarrow> string \<Rightarrow> nat \<Rightarrow> string list \<Rightarrow> string" where
  "join_loop sep R k [] = R"
| "join_loop sep R k (e # es) = join_loop sep ((if 0 < k then R @ sep else R) @ e) (Suc k) es"

definition join :: "string list \<Rightarrow> string \<Rightarrow> string" where
  "join xs sep = join_loop sep [] 0 xs"

text \<open>
  \<^verbatim>\<open>Math.round\<close>: the integer closest to the argument, the one closer to plus infinity when
  two are equally close; a non-finite argument is returned as it is.
\<close>

fun Math_round :: "number \<Rightarrow> number" where
  "Math_round (Num q) = Num (of_int \<lfloor>q + 1 / 2\<rfloor>)"
| "Math_round NaN = NaN"
| "Math_round PosInfinity = PosInfinity"
| "Math_round NegInfinity = NegInfinity"

text \<open>
  \<^verbatim>\<open>Promise.all\<close> over promises whose outcomes are \<open>ps\<close>, settling in the order \<open>order\<close>
  (a list of indices into \<open>ps\<close>). A fulfilled promise stores its value in its own slot; the
  first rejected promise to settle rejects the whole; once every slot is filled the whole
  resolves with the slots in index order. \<open>None\<close> is a join that is still pending when the
  settlements listed in \<open>order\<close> are over.
\<close>

fun Promise_all_loop ::
  "(error + 'a) list \<Rightarrow> 'a option list \<Rightarrow> nat list \<Rightarrow> (error + 'a list) option" where
  "Promise_all_loop ps slots [] =
     (case those slots of Some vs \<Rightarrow> Some (Inr vs) | None \<Rightarrow> None)"
| "Promise_all_loop ps slots (i # order) =
     (case those slots of
        Some vs \<Rightarrow> Some (Inr vs)
      | None \<Rightarrow>
          (if length ps \<le> i then Promise_all_loop ps slots order
           else (case ps ! i of
                   Inl e \<Rightarrow> Some (Inl e)
                 | Inr v \<Rightarrow> Promise_all_loop ps (slots[i := Some v]) order)))"

definition Promise_all :: "(error + 'a) list \<Rightarrow> nat list \<Rightarrow> (error + 'a list) option" where
  "Promise_all ps order = Promise_all_loop ps (replicate (length ps) None) order"

section \<open>The Command Layer of SmartBridge.ts\<close>

record BridgeInfo =
  firmwareRevision :: string
  manufacturer :: string
  model :: string
  name :: string
  serialNumber :: string

text \<open>
  \<^verbatim>\<open>raw.Body!\<close> followed by a property read: the non-null assertion is erased at run time,
  so a response without a body makes the property read throw.
\<close>

definition getBridgeInfo :: "LeapClient \<Rightarrow> error + BridgeInfo" where
  "getBridgeInfo client =
     (case client ''ReadRequest'' ''/device/1'' None of
        Inl e \<Rightarrow> Inl e
      | Inr raw \<Rightarrow>
          (case Body raw of
             None \<Rightarrow> Inl TypeError
           | Some (OneDeviceDefinition device) \<Rightarrow>
               Inr \<lparr> firmwareRevision = DisplayName (Firmware (FirmwareImage device)),
                     manufacturer = ''Lutron Electronics Co., Inc'',
                     model = ModelNumber device,
                     name = join (FullyQualifiedName device) '' '',
                     serialNumber = SerialNumber device \<rparr>
           | Some _ \<Rightarrow> Inl (Error ''Got bad response to bridge info request'')))"

definition getDeviceInfo :: "LeapClient \<Rightarrow> error + Device list" where
  "getDeviceInfo client =
     (case client ''ReadRequest'' ''/device'' None of
        Inl e \<Rightarrow> Inl e
      | Inr raw \<Rightarrow>
          (case Body raw of
             None \<Rightarrow> Inl TypeError
           | Some (MultipleDeviceDefinition devices) \<Rightarrow> Inr devices
           | Some _ \<Rightarrow> Inl (Error ''got bad response to all device list request'')))"

text \<open>
  \<^verbatim>\<open>setBlindsTilt\<close> does not await the request it issues: what it does is the call it makes
  on the Transport, here its three arguments. \<^verbatim>\<open>device.LocalZones[0].href\<close> throws when the
  device has no zone, before any request is made.
\<close>

definition setBlindsTilt ::
  "Device \<Rightarrow> number \<Rightarrow> error + (string \<times> string \<times> RequestBody option)" where
  "setBlindsTilt device val =
     (case LocalZones device of
        [] \<Rightarrow> Inl TypeError
      | zone # _ \<Rightarrow>
          Inr (''CreateRequest'', href zone @ ''/commandprocessor'',
               Some \<lparr> Command = \<lparr> CommandType = ''GoToTilt'',
                                  TiltParameters = \<lparr> TiltParam = Math_round val \<rparr> \<rparr> \<rparr>))"

definition readBlindsTilt :: "LeapClient \<Rightarrow> Device \<Rightarrow> error + number" where
  "readBlindsTilt client device =
     (case LocalZones device of
        [] \<Rightarrow> Inl TypeError
      | zone # _ \<Rightarrow>
          (case client ''ReadRequest'' (href zone @ ''/status'') None of
             Inl e \<Rightarrow> Inl e
           | Inr resp \<Rightarrow>
               (case Body resp of
                  None \<Rightarrow> Inl TypeError
                | Some (OneZoneStatus zs) \<Rightarrow> Inr (Tilt zs)
                | Some _ \<Rightarrow> Inl TypeError)))"

definition getButtonGroupFromDevice :: "LeapClient \<Rightarrow> Device \<Rightarrow> error + ButtonGroup" where
  "getButtonGroupFromDevice client device =
     (case ButtonGroups device of
        [] \<Rightarrow> Inl TypeError
      | bg # _ \<Rightarrow>
          (case client ''ReadRequest'' (href bg) None of
             Inl e \<Rightarrow> Inl e
           | Inr raw \<Rightarrow>
               (case Body raw of
                  None \<Rightarrow> Inl TypeError
                | Some (OneButtonGroupDefinition g) \<Rightarrow> Inr g
                | Some _ \<Rightarrow> Inl (Error ''unable to get button group''))))"

text \<open>The promise that \<^verbatim>\<open>getButtonsFromGroup\<close> pushes for one button reference.\<close>

definition button_promise :: "LeapClient \<Rightarrow> Href \<Rightarrow> error + Button" where
  "button_promise client button =
     (case client ''ReadRequest'' (href button) None of
        Inl e \<Rightarrow> Inl e
      | Inr resp \<Rightarrow>
          (case Body resp of
             None \<Rightarrow> Inl TypeError
           | Some (OneButtonDefinition b) \<Rightarrow> Inr b
           | Some _ \<Rightarrow> Inl (Error ''unable to get button'')))"

definition getButtonsFromGroup ::
  "LeapClient \<Rightarrow> ButtonGroup \<Rightarrow> nat list \<Rightarrow> (error + Button list) option" where
  "getButtonsFromGroup client bgroup order =
     Promise_all (map (button_promise client) (Buttons bgroup)) order"

section \<open>The Session: timers, the liveness loop and the notification relay\<close>

definition PING_INTERVAL_MS :: nat where
  "PING_INTERVAL_MS = 60000"

definition PING_TIMEOUT_MS :: nat where
  "PING_TIMEOUT_MS = 1000"

text \<open>
  The two functions that SmartBridge.ts hands to \<^verbatim>\<open>setTimeout\<close>: the one of
  \<^verbatim>\<open>_setPingTimeout\<close>, which starts a probe cycle, and the one of \<^verbatim>\<open>pingLoop\<close>, which
  rejects the timeout promise of the race.
\<close>

datatype callback = PingCallback | TimeoutCallback

text \<open>The interface \<^verbatim>\<open>SmartBridgeEvents\<close>: what a SmartBridge can emit to its subscribers.\<close>

datatype SmartBridgeEvents = unsolicited string Response | disconnected

text \<open>
  The object and the part of its surroundings that its methods act on. \<open>bridgeID\<close> and
  \<open>pingLooper\<close> are the fields of the class (a timer handle is a number; handles start at 1
  and 0 is the handle of no timer). \<open>emitted\<close> lists the \<^verbatim>\<open>emit\<close> calls of the object.
  \<open>timers\<close> holds the pending timers of the runtime, each with its handle, its delay in
  milliseconds and its callback, and \<open>next_handle\<close> is the handle that the next
  \<^verbatim>\<open>setTimeout\<close> returns. \<open>racing\<close> holds the \<^verbatim>\<open>Promise.race\<close> instances of \<^verbatim>\<open>pingLoop\<close> that
  have not settled, each named by the handle of its timeout timer. \<open>client_requests\<close> and
  \<open>client_closes\<close> record the calls made on the Transport: the arguments of every
  \<^verbatim>\<open>client.request\<close> and the number of \<^verbatim>\<open>client.close()\<close> calls.
\<close>

record SmartBridge =
  bridgeID :: string
  pingLooper :: nat
  emitted :: "SmartBridgeEvents list"
  timers :: "(nat \<times> nat \<times> callback) list"
  next_handle :: nat
  racing :: "nat list"
  client_requests :: "(string \<times> string \<times> RequestBody option) list"
  client_closes :: nat

definition setTimeout :: "callback \<Rightarrow> nat \<Rightarrow> SmartBridge \<Rightarrow> nat \<times> SmartBridge" where
  "setTimeout cb ms s =
     (next_handle s,
      s\<lparr> timers := timers s @ [(next_handle s, ms, cb)], next_handle := Suc (next_handle s) \<rparr>)"

text \<open>\<^verbatim>\<open>clearTimeout\<close> of a handle that is not pending does nothing.\<close>

definition clearTimeout :: "nat \<Rightarrow> SmartBridge \<Rightarrow> SmartBridge" where
  "clearTimeout h s = s\<lparr> timers := filter (\<lambda>t. fst t \<noteq> h) (timers s) \<rparr>"

definition client_request ::
  "string \<Rightarrow> string \<Rightarrow> RequestBody option \<Rightarrow> SmartBridge \<Rightarrow> SmartBridge" where
  "client_request kind url body s = s\<lparr> client_requests := client_requests s @ [(kind, url, body)] \<rparr>"

definition client_close :: "SmartBridge \<Rightarrow> SmartBridge" where
  "client_close s = s\<lparr> client_closes := Suc (client_closes s) \<rparr>"

definition emit :: "SmartBridgeEvents \<Rightarrow> SmartBridge \<Rightarrow> SmartBridge" where
  "emit ev s = s\<lparr> emitted := emitted s @ [ev] \<rparr>"

definition setPingTimeout :: "SmartBridge \<Rightarrow> SmartBridge" where
  "setPingTimeout s =
     (case setTimeout PingCallback PING_INTERVAL_MS s of (h, s') \<Rightarrow> s'\<lparr> pingLooper := h \<rparr>)"

text \<open>
  The constructor. Subscribing \<^verbatim>\<open>_handleUnsolicited\<close> and \<^verbatim>\<open>_handleDisconnect\<close> to the
  Transport is what makes the Transport's notifications steps of the Session, see \<open>step\<close>.
\<close>

definition SmartBridge_new :: "string \<Rightarrow> SmartBridge" where
  "SmartBridge_new bid =
     setPingTimeout \<lparr> bridgeID = bid, pingLooper = 0, emitted = [], timers = [],
                      next_handle = 1, racing = [], client_requests = [], client_closes = 0 \<rparr>"

text \<open>
  \<^verbatim>\<open>pingLoop\<close> up to the point where it returns: the executor of the timeout promise starts
  the timeout timer, \<^verbatim>\<open>ping()\<close> issues the probe, and the race of the two is pending.
\<close>

definition pingLoop :: "SmartBridge \<Rightarrow> SmartBridge" where
  "pingLoop s =
     (case setTimeout TimeoutCallback PING_TIMEOUT_MS s of
        (h, s') \<Rightarrow>
          (client_request ''ReadRequest'' ''/server/1/status/ping'' None s')
            \<lparr> racing := racing s' @ [h] \<rparr>)"

text \<open>The \<^verbatim>\<open>then\<close> and the \<^verbatim>\<open>catch\<close> callbacks that \<^verbatim>\<open>pingLoop\<close> chains to the race.\<close>

definition ping_then :: "SmartBridge \<Rightarrow> SmartBridge" where
  "ping_then s = setPingTimeout (clearTimeout (pingLooper s) s)"

definition ping_catch :: "SmartBridge \<Rightarrow> SmartBridge" where
  "ping_catch s = client_close s"

text \<open>
  One of the two promises of race \<open>h\<close> settles, fulfilled when \<open>ok\<close>. The first settlement
  settles the race and runs the matching callback; a later one is ignored.
\<close>

definition settle_race :: "nat \<Rightarrow> bool \<Rightarrow> SmartBridge \<Rightarrow> SmartBridge" where
  "settle_race h ok s =
     (if h \<in> set (racing s)
      then (if ok then ping_then (s\<lparr> racing := removeAll h (racing s) \<rparr>)
            else ping_catch (s\<lparr> racing := removeAll h (racing s) \<rparr>))
      else s)"

fun run_callback :: "nat \<Rightarrow> callback \<Rightarrow> SmartBridge \<Rightarrow> SmartBridge" where
  "run_callback h PingCallback s = pingLoop (clearTimeout (pingLooper s) s)"
| "run_callback h TimeoutCallback s = settle_race h False s"

text \<open>The runtime fires timer \<open>h\<close>: a pending timer leaves the pending set and its callback runs.\<close>

definition timer_fires :: "nat \<Rightarrow> SmartBridge \<Rightarrow> SmartBridge" where
  "timer_fires h s =
     (case find (\<lambda>t. fst t = h) (timers s) of
        None \<Rightarrow> s
      | Some (_, _, cb) \<Rightarrow> run_callback h cb (s\<lparr> timers := filter (\<lambda>t. fst t \<noteq> h) (timers s) \<rparr>))"

definition handleUnsolicited :: "Response \<Rightarrow> SmartBridge \<Rightarrow> SmartBridge" where
  "handleUnsolicited response s = emit (unsolicited (bridgeID s) response) s"

definition close :: "SmartBridge \<Rightarrow> SmartBridge" where
  "close s = client_close (clearTimeout (pingLooper s) s)"

definition handleDisconnect :: "SmartBridge \<Rightarrow> SmartBridge" where
  "handleDisconnect s = close s"

text \<open>
  What can happen to a Session after its construction: a timer of the runtime fires, the
  probe of a race resolves or rejects, the Transport delivers an unsolicited message or its
  disconnect notification, or the owner calls \<^verbatim>\<open>close()\<close>.
\<close>

datatype event =
    TimerFires nat
  | ProbeResolves nat Response
  | ProbeRejects nat error
  | TransportUnsolicited Response
  | TransportDisconnected
  | CallClose

fun step :: "SmartBridge \<Rightarrow> event \<Rightarrow> SmartBridge" where
  "step s (TimerFires h) = timer_fires h s"
| "step s (ProbeResolves h response) = settle_race h True s"
| "step s (ProbeRejects h e) = settle_race h False s"
| "step s (TransportUnsolicited response) = handleUnsolicited response s"
| "step s TransportDisconnected = handleDisconnect s"
| "step s CallClose = close s"

definition run :: "SmartBridge \<Rightarrow> event list \<Rightarrow> SmartBridge" where
  "run s evs = foldl step s evs"

text \<open>The timers of a state that start a probe cycle when they fire.\<close>

definition ping_timers :: "SmartBridge \<Rightarrow> (nat \<times> nat \<times> callback) list" where
  "ping_timers s = filter (\<lambda>t. snd (snd t) = PingCallback) (timers s)"

text \<open>
  What the liveness loop keeps true of the timers: handles are distinct and below the next
  handle, the timer that \<open>pingLooper\<close> names is the only one that can start a probe cycle,
  the timeout timer of a pending race is itself pending, and a pending race and a timer
  that starts a probe cycle never exist together.
\<close>

definition cycle_inv :: "SmartBridge \<Rightarrow> bool" where
  "cycle_inv s \<longleftrightarrow>
     distinct (map fst (timers s)) \<and>
     (\<forall>t \<in> set (timers s). fst t < next_handle s) \<and>
     pingLooper s < next_handle s \<and>
     (\<forall>t \<in> set (timers s). snd (snd t) = PingCallback \<longleftrightarrow> fst t = pingLooper s) \<and>
     (\<forall>h \<in> set (racing s). (h, PING_TIMEOUT_MS, TimeoutCallback) \<in> set (timers s)) \<and>
     length (ping_timers s) + length (racing s) \<le> 1"

section \<open>Notions of the specification\<close>

text \<open>The name components joined with single spaces, as the specification words it.\<close>

fun space_joined :: "string list \<Rightarrow> string" where
  "space_joined [] = []"
| "space_joined [x] = x"
| "space_joined (x # y # ys) = x @ '' '' @ space_joined (y # ys)"

text \<open>The unsolicited messages that a sequence of events delivers, in order.\<close>

fun unsolicited_messages :: "event list \<Rightarrow> Response list" where
  "unsolicited_messages [] = []"
| "unsolicited_messages (TransportUnsolicited r # evs) = r # unsolicited_messages evs"
| "unsolicited_messages (e # evs) = unsolicited_messages evs"

section \<open>Properties of the Command Layer\<close>

lemma join_loop_Suc: "join_loop sep R (Suc k) es = R @ concat (map (\<lambda>e. sep @ e) es)"
  by (induction es arbitrary: R k) simp_all

lemma space_joined_Cons: "space_joined (x # xs) = x @ concat (map (\<lambda>e. '' '' @ e) xs)"
  by (induction xs arbitrary: x) simp_all

lemma join_space_joined: "join xs '' '' = space_joined xs"
  by (cases xs) (simp_all add: join_def join_loop_Suc space_joined_Cons)

text \<open>
  Claim C9. For every response to the device-tree read whose body has the single-device
  shape, \<^verbatim>\<open>getBridgeInfo\<close> returns the snapshot whose name is the device's name components
  joined with single spaces and whose manufacturer is the constant string
  \<^verbatim>\<open>Lutron Electronics Co., Inc\<close>; the other three fields are copied from the device.
\<close>

theorem getBridgeInfo_snapshot:
  assumes "client ''ReadRequest'' ''/device/1'' None = Inr raw"
    and "Body raw = Some (OneDeviceDefinition device)"
  shows "getBridgeInfo client =
           Inr \<lparr> firmwareRevision = DisplayName (Firmware (FirmwareImage device)),
                 manufacturer = ''Lutron Electronics Co., Inc'',
                 model = ModelNumber device,
                 name = space_joined (FullyQualifiedName device),
                 serialNumber = SerialNumber device \<rparr>"
  using assms by (simp add: getBridgeInfo_def join_space_joined)

text \<open>
  The components \<^verbatim>\<open>["Living Room", "Shade"]\<close> give the name \<^verbatim>\<open>Living Room Shade\<close>.
\<close>

theorem getBridgeInfo_snapshot_witness:
  "getBridgeInfo (\<lambda>kind url body.
       Inr \<lparr> CommuniqueType = ''ReadResponse'',
             Header = \<lparr> StatusCode = ''200 OK'', Url = url \<rparr>,
             Body = Some (OneDeviceDefinition
               \<lparr> href = ''/device/1'', FullyQualifiedName = [''Living Room'', ''Shade''],
                 SerialNumber = ''12345'', ModelNumber = ''L-BDG2-WH'',
                 FirmwareImage = \<lparr> Firmware = \<lparr> DisplayName = ''08.08.10f000'' \<rparr> \<rparr>,
                 LocalZones = [], ButtonGroups = [] \<rparr>) \<rparr>)
   = Inr \<lparr> firmwareRevision = ''08.08.10f000'',
           manufacturer = ''Lutron Electronics Co., Inc'',
           model = ''L-BDG2-WH'',
           name = ''Living Room Shade'',
           serialNumber = ''12345'' \<rparr>"
  using getBridgeInfo_snapshot
    [of "\<lambda>kind url body.
       Inr \<lparr> CommuniqueType = ''ReadResponse'',
             Header = \<lparr> StatusCode = ''200 OK'', Url = url \<rparr>,
             Body = Some (OneDeviceDefinition
               \<lparr> href = ''/device/1'', FullyQualifiedName = [''Living Room'', ''Shade''],
                 SerialNumber = ''12345'', ModelNumber = ''L-BDG2-WH'',
                 FirmwareImage = \<lparr> Firmware = \<lparr> DisplayName = ''08.08.10f000'' \<rparr> \<rparr>,
                 LocalZones = [], ButtonGroups = [] \<rparr>) \<rparr>"
        "\<lparr> CommuniqueType = ''ReadResponse'',
             Header = \<lparr> StatusCode = ''200 OK'', Url = ''/device/1'' \<rparr>,
             Body = Some (OneDeviceDefinition
               \<lparr> href = ''/device/1'', FullyQualifiedName = [''Living Room'', ''Shade''],
                 SerialNumber = ''12345'', ModelNumber = ''L-BDG2-WH'',
                 FirmwareImage = \<lparr> Firmware = \<lparr> DisplayName = ''08.08.10f000'' \<rparr> \<rparr>,
                 LocalZones = [], ButtonGroups = [] \<rparr>) \<rparr>"
        "\<lparr> href = ''/device/1'', FullyQualifiedName = [''Living Room'', ''Shade''],
                 SerialNumber = ''12345'', ModelNumber = ''L-BDG2-WH'',
                 FirmwareImage = \<lparr> Firmware = \<lparr> DisplayName = ''08.08.10f000'' \<rparr> \<rparr>,
                 LocalZones = [], ButtonGroups = [] \<rparr>"]
  by simp

text \<open>
  Claim C8, as stated, fails: a \<^verbatim>\<open>number\<close> need not be finite, and for \<^verbatim>\<open>NaN\<close> the tilt
  of the write that \<^verbatim>\<open>setBlindsTilt\<close> issues is \<^verbatim>\<open>NaN\<close>, which is no integer.
\<close>

theorem setBlindsTilt_NaN_counterexample:
  "setBlindsTilt \<lparr> href = ''/device/2'', FullyQualifiedName = [''Living Room'', ''Shade''],
                   SerialNumber = ''12345'', ModelNumber = ''SYC-EDU-B-J'',
                   FirmwareImage = \<lparr> Firmware = \<lparr> DisplayName = ''1.0'' \<rparr> \<rparr>,
                   LocalZones = [\<lparr> href = ''/zone/1'' \<rparr>], ButtonGroups = [] \<rparr> NaN
   = Inr (''CreateRequest'', ''/zone/1/commandprocessor'',
          Some \<lparr> Command = \<lparr> CommandType = ''GoToTilt'',
                             TiltParameters = \<lparr> TiltParam = NaN \<rparr> \<rparr> \<rparr>)"
  by (simp add: setBlindsTilt_def)

lemma round_nearest: "\<bar>q - of_int (round q)\<bar> \<le> \<bar>q - of_int m\<bar>" for q :: rat
  by (rule round_diff_minimal)

text \<open>
  Claim C8, amended. For every device with at least one zone and every finite value \<open>q\<close>,
  \<^verbatim>\<open>setBlindsTilt\<close> issues one write to the command endpoint of the first zone whose tilt
  is an integer nearest to \<open>q\<close>: no integer is closer to \<open>q\<close> than the one transmitted.
\<close>

theorem setBlindsTilt_rounds:
  assumes "LocalZones device = zone # zones"
  shows "setBlindsTilt device (Num q) =
           Inr (''CreateRequest'', href zone @ ''/commandprocessor'',
                Some \<lparr> Command = \<lparr> CommandType = ''GoToTilt'',
                                   TiltParameters = \<lparr> TiltParam = Num (of_int (round q)) \<rparr> \<rparr> \<rparr>)
         \<and> (\<forall>m::int. \<bar>q - of_int (round q)\<bar> \<le> \<bar>q - of_int m\<bar>)"
  using assms by (simp add: setBlindsTilt_def round_def round_nearest[unfolded round_def])

text \<open>
  \<^verbatim>\<open>setBlindsTilt(device, 47.6)\<close> issues a write with tilt 48.
\<close>

theorem setBlindsTilt_rounds_witness:
  "setBlindsTilt \<lparr> href = ''/device/2'', FullyQualifiedName = [''Living Room'', ''Shade''],
                   SerialNumber = ''12345'', ModelNumber = ''SYC-EDU-B-J'',
                   FirmwareImage = \<lparr> Firmware = \<lparr> DisplayName = ''1.0'' \<rparr> \<rparr>,
                   LocalZones = [\<lparr> href = ''/zone/1'' \<rparr>], ButtonGroups = [] \<rparr> (Num (476 / 10))
   = Inr (''CreateRequest'', ''/zone/1/commandprocessor'',
          Some \<lparr> Command = \<lparr> CommandType = ''GoToTilt'',
                             TiltParameters = \<lparr> TiltParam = Num 48 \<rparr> \<rparr> \<rparr>)"
proof -
  have r: "round (238 / 5 :: rat) = 48"
    by (simp add: round_def floor_eq_iff)
  show ?thesis
    using setBlindsTilt_rounds
      [of "\<lparr> href = ''/device/2'', FullyQualifiedName = [''Living Room'', ''Shade''],
                   SerialNumber = ''12345'', ModelNumber = ''SYC-EDU-B-J'',
                   FirmwareImage = \<lparr> Firmware = \<lparr> DisplayName = ''1.0'' \<rparr> \<rparr>,
                   LocalZones = [\<lparr> href = ''/zone/1'' \<rparr>], ButtonGroups = [] \<rparr>"
          "\<lparr> href = ''/zone/1'' \<rparr>" "[]" "476 / 10"]
    by (simp add: r)
qed

text \<open>
  Claim C5. The claim asks that each validated operation fails with an explicit
  shape-validation error when the body lacks the expected discriminant.
  \<^verbatim>\<open>readBlindsTilt\<close> reads \<^verbatim>\<open>ZoneStatus.Tilt\<close> without testing for \<^verbatim>\<open>ZoneStatus\<close>: on a
  list-shaped body the property read throws a \<^verbatim>\<open>TypeError\<close>, where its four siblings throw
  an \<^verbatim>\<open>Error\<close> of their own.
\<close>

theorem readBlindsTilt_unvalidated:
  "readBlindsTilt
     (\<lambda>kind url body.
        Inr \<lparr> CommuniqueType = ''ReadResponse'',
              Header = \<lparr> StatusCode = ''200 OK'', Url = url \<rparr>,
              Body = Some (MultipleDeviceDefinition []) \<rparr>)
     \<lparr> href = ''/device/2'', FullyQualifiedName = [''Living Room'', ''Shade''],
       SerialNumber = ''12345'', ModelNumber = ''SYC-EDU-B-J'',
       FirmwareImage = \<lparr> Firmware = \<lparr> DisplayName = ''1.0'' \<rparr> \<rparr>,
       LocalZones = [\<lparr> href = ''/zone/1'' \<rparr>], ButtonGroups = [] \<rparr>
   = Inl TypeError"
  by (simp add: readBlindsTilt_def)

text \<open>
  The four operations that test the discriminant: a body of another shape makes each of
  them throw its own \<^verbatim>\<open>Error\<close>.
\<close>

lemma getBridgeInfo_bad_shape:
  assumes "client ''ReadRequest'' ''/device/1'' None = Inr raw" and "Body raw = Some b"
    and "\<And>d. b \<noteq> OneDeviceDefinition d"
  shows "getBridgeInfo client = Inl (Error ''Got bad response to bridge info request'')"
  using assms by (cases b) (auto simp: getBridgeInfo_def)

lemma getDeviceInfo_bad_shape:
  assumes "client ''ReadRequest'' ''/device'' None = Inr raw" and "Body raw = Some b"
    and "\<And>ds. b \<noteq> MultipleDeviceDefinition ds"
  shows "getDeviceInfo client = Inl (Error ''got bad response to all device list request'')"
  using assms by (cases b) (auto simp: getDeviceInfo_def)

lemma getButtonGroupFromDevice_bad_shape:
  assumes "ButtonGroups device = bg # bgs"
    and "client ''ReadRequest'' (href bg) None = Inr raw" and "Body raw = Some b"
    and "\<And>g. b \<noteq> OneButtonGroupDefinition g"
  shows "getButtonGroupFromDevice client device = Inl (Error ''unable to get button group'')"
  using assms by (cases b) (auto simp: getButtonGroupFromDevice_def)

lemma button_promise_bad_shape:
  assumes "client ''ReadRequest'' (href button) None = Inr resp" and "Body resp = Some b"
    and "\<And>x. b \<noteq> OneButtonDefinition x"
  shows "button_promise client button = Inl (Error ''unable to get button'')"
  using assms by (cases b) (auto simp: button_promise_def)

text \<open>
  \<^verbatim>\<open>readBlindsTilt\<close> on any body without \<^verbatim>\<open>ZoneStatus\<close>: the property read throws.
\<close>

lemma readBlindsTilt_bad_shape:
  assumes "LocalZones device = zone # zones"
    and "client ''ReadRequest'' (href zone @ ''/status'') None = Inr resp" and "Body resp = Some b"
    and "\<And>zs. b \<noteq> OneZoneStatus zs"
  shows "readBlindsTilt client device = Inl TypeError"
  using assms by (cases b) (auto simp: readBlindsTilt_def)

subsection \<open>The join of the button requests\<close>


lemma those_eq_Some: "those xs = Some ys \<longleftrightarrow> xs = map Some ys"
  by (induction xs arbitrary: ys) (auto split: option.splits)

lemma filled_slots:
  assumes "those slots = Some ws" and "length slots = length vs"
    and "\<forall>j < length vs. slots ! j = None \<or> slots ! j = Some (vs ! j)"
  shows "ws = vs"
proof (rule nth_equalityI)
  from assms(1) have s: "slots = map Some ws" by (simp add: those_eq_Some)
  with assms(2) show "length ws = length vs" by simp
  fix j assume "j < length ws"
  with s assms(2,3) show "ws ! j = vs ! j" by auto
qed

lemma Promise_all_loop_fulfilled:
  assumes "length slots = length vs"
    and "\<forall>j < length vs. slots ! j = None \<or> slots ! j = Some (vs ! j)"
    and "\<forall>j < length vs. slots ! j = None \<longrightarrow> j \<in> set order"
  shows "Promise_all_loop (map Inr vs) slots order = Some (Inr vs)"
  using assms
proof (induction order arbitrary: slots)
  case Nil
  then have "\<forall>j < length vs. slots ! j = Some (vs ! j)"
    by (metis empty_iff empty_set)
  with Nil.prems(1) have "slots = map Some vs"
    by (intro nth_equalityI) simp_all
  then show ?case by (simp add: those_eq_Some[THEN iffD2])
next
  case (Cons i order)
  show ?case
  proof (cases "those slots")
    case (Some ws)
    then have "ws = vs" using Cons.prems(1,2) by (rule filled_slots)
    with Some show ?thesis by simp
  next
    case None
    show ?thesis
    proof (cases "length vs \<le> i")
      case True
      have "Promise_all_loop (map Inr vs) slots order = Some (Inr vs)"
        using Cons.prems True by (intro Cons.IH) auto
      with None True show ?thesis by simp
    next
      case False
      have "Promise_all_loop (map Inr vs) (slots[i := Some (vs ! i)]) order = Some (Inr vs)"
        using Cons.prems False by (intro Cons.IH) (auto simp: nth_list_update)
      with None False show ?thesis by simp
    qed
  qed
qed

lemma Promise_all_fulfilled:
  assumes "\<forall>j < length vs. j \<in> set order"
  shows "Promise_all (map Inr vs) order = Some (Inr vs)"
  unfolding Promise_all_def
  using assms by (intro Promise_all_loop_fulfilled[where vs = vs, simplified]) simp_all


text \<open>
  Claim C6. When the request for every button reference of the group resolves with a
  single-button body, and every one of these promises settles at some point of the
  completion order, \<^verbatim>\<open>getButtonsFromGroup\<close> resolves with the buttons in the order of the
  group's references, whatever the completion order is.
\<close>

theorem getButtonsFromGroup_order:
  assumes "\<forall>b \<in> set (Buttons bgroup).
             \<exists>resp. client ''ReadRequest'' (href b) None = Inr resp
                  \<and> Body resp = Some (OneButtonDefinition (button b))"
    and "\<forall>i < length (Buttons bgroup). i \<in> set order"
  shows "getButtonsFromGroup client bgroup order = Some (Inr (map button (Buttons bgroup)))"
proof -
  have eq: "map (button_promise client) (Buttons bgroup) = map Inr (map button (Buttons bgroup))"
    using assms(1) by (auto simp: button_promise_def)
  have "\<forall>i < length (map button (Buttons bgroup)). i \<in> set order"
    using assms(2) by simp
  then show ?thesis
    unfolding getButtonsFromGroup_def eq by (rule Promise_all_fulfilled)
qed



text \<open>
  Three references whose requests complete in the order third, first, second.
\<close>

theorem getButtonsFromGroup_order_witness:
  "getButtonsFromGroup
     (\<lambda>kind url body.
        Inr \<lparr> CommuniqueType = ''ReadResponse'',
              Header = \<lparr> StatusCode = ''200 OK'', Url = url \<rparr>,
              Body = Some (OneButtonDefinition
                       \<lparr> href = url, ButtonNumber = length url, Name = ''Button'' \<rparr>) \<rparr>)
     \<lparr> href = ''/buttongroup/2'',
       Buttons = [\<lparr> href = ''/button/101'' \<rparr>, \<lparr> href = ''/button/7'' \<rparr>, \<lparr> href = ''/button/55'' \<rparr>] \<rparr>
     [2, 0, 1]
   = Some (Inr [\<lparr> href = ''/button/101'', ButtonNumber = 11, Name = ''Button'' \<rparr>,
                \<lparr> href = ''/button/7'', ButtonNumber = 9, Name = ''Button'' \<rparr>,
                \<lparr> href = ''/button/55'', ButtonNumber = 10, Name = ''Button'' \<rparr>])"
proof -
  have o: "\<forall>i < 3. i \<in> set [2, 0, 1 :: nat]"
    by (simp add: less_Suc_eq numeral_3_eq_3)
  show ?thesis
    using getButtonsFromGroup_order
      [of "\<lparr> href = ''/buttongroup/2'',
             Buttons = [\<lparr> href = ''/button/101'' \<rparr>, \<lparr> href = ''/button/7'' \<rparr>,
                        \<lparr> href = ''/button/55'' \<rparr>] \<rparr>"
          "\<lambda>kind url body.
             Inr \<lparr> CommuniqueType = ''ReadResponse'',
                   Header = \<lparr> StatusCode = ''200 OK'', Url = url \<rparr>,
                   Body = Some (OneButtonDefinition
                            \<lparr> href = url, ButtonNumber = length url, Name = ''Button'' \<rparr>) \<rparr>"
          "\<lambda>b. \<lparr> href = href b, ButtonNumber = length (href b), Name = ''Button'' \<rparr>"
          "[2, 0, 1]"] o
    by simp
qed


section \<open>Properties of the Session\<close>

lemmas session_defs =
  setTimeout_def clearTimeout_def client_request_def client_close_def emit_def
  setPingTimeout_def pingLoop_def ping_then_def ping_catch_def settle_race_def
  timer_fires_def handleUnsolicited_def close_def handleDisconnect_def

lemma run_Nil: "run s [] = s"
  by (simp add: run_def)

lemma run_Cons: "run s (e # evs) = run (step s e) evs"
  by (simp add: run_def)

lemma run_snoc: "run s (evs @ [e]) = step (run s evs) e"
  by (simp add: run_def)

lemma bridgeID_run_callback: "bridgeID (run_callback h cb s) = bridgeID s"
  by (cases cb) (simp_all add: session_defs split: prod.splits)

lemma emitted_run_callback: "emitted (run_callback h cb s) = emitted s"
  by (cases cb) (simp_all add: session_defs split: prod.splits)

lemma bridgeID_step: "bridgeID (step s e) = bridgeID s"
  by (cases e)
     (simp_all add: session_defs bridgeID_run_callback split: prod.splits option.splits)

lemma bridgeID_run: "bridgeID (run s evs) = bridgeID s"
  by (induction evs arbitrary: s) (simp_all add: run_Nil run_Cons bridgeID_step)

lemma bridgeID_new: "bridgeID (SmartBridge_new bid) = bid"
  by (simp add: SmartBridge_new_def session_defs)

text \<open>
  Claim C10. In every state that a Session reaches from its construction, whatever events
  came before (explicit closes, disconnect notifications and liveness failures included),
  an unsolicited message from the Transport makes the Session emit exactly one
  \<^verbatim>\<open>unsolicited\<close> notification, carrying the Session's own identifier and the response as
  it came, and changes nothing else.
\<close>

theorem unsolicited_relay:
  "step (run (SmartBridge_new bid) evs) (TransportUnsolicited response) =
     (run (SmartBridge_new bid) evs)
       \<lparr> emitted := emitted (run (SmartBridge_new bid) evs) @ [unsolicited bid response] \<rparr>"
  by (simp add: handleUnsolicited_def emit_def bridgeID_run bridgeID_new)

lemma emitted_step:
  "emitted (step s e) = emitted s @ map (unsolicited (bridgeID s)) (unsolicited_messages [e])"
  by (cases e)
     (simp_all add: session_defs emitted_run_callback split: prod.splits option.splits)

lemma unsolicited_messages_Cons:
  "unsolicited_messages (e # evs) = unsolicited_messages [e] @ unsolicited_messages evs"
  by (cases e) simp_all

lemma emitted_run:
  "emitted (run s evs) = emitted s @ map (unsolicited (bridgeID s)) (unsolicited_messages evs)"
proof (induction evs arbitrary: s)
  case Nil
  show ?case by (simp add: run_Nil)
next
  case (Cons e evs)
  have "emitted (run s (e # evs)) = emitted (run (step s e) evs)"
    by (simp add: run_Cons)
  also have "\<dots> = emitted (step s e) @ map (unsolicited (bridgeID s)) (unsolicited_messages evs)"
    by (simp add: Cons.IH bridgeID_step)
  also have "\<dots> = emitted s @ map (unsolicited (bridgeID s)) (unsolicited_messages (e # evs))"
    by (simp add: emitted_step unsolicited_messages_Cons[of e evs])
  finally show ?case .
qed

text \<open>
  Whatever happens to a Session, \<^verbatim>\<open>disconnected\<close> is not among its emissions.
\<close>

lemma disconnected_never_emitted:
  "disconnected \<notin> set (emitted (run (SmartBridge_new bid) evs))"
proof -
  have "emitted (SmartBridge_new bid) = []"
    by (simp add: SmartBridge_new_def session_defs)
  then show ?thesis
    by (auto simp: emitted_run)
qed

text \<open>
  Claim C1. The claim asks for exactly one \<^verbatim>\<open>disconnected\<close> notification to the Session's
  subscribers after a teardown through the Transport's disconnect notification. On a fresh
  Session that receives the disconnect notification, nothing is emitted at all.
\<close>

theorem disconnect_not_announced:
  "emitted (run (SmartBridge_new ''bridge'') [TransportDisconnected]) = []"
  by (simp add: run_def SmartBridge_new_def session_defs)

text \<open>
  Claim C2, as stated, fails: two explicit closes, or an explicit close and a disconnect
  notification, call the Transport's close twice.
\<close>

theorem close_twice_counterexample:
  "client_closes (run (SmartBridge_new ''bridge'') [CallClose, CallClose]) = 2
   \<and> client_closes (run (SmartBridge_new ''bridge'') [CallClose, TransportDisconnected]) = 2"
  by (simp add: run_def SmartBridge_new_def session_defs)

text \<open>
  Claim C2, amended. Every close trigger (an explicit call of close, or the Transport's
  disconnect notification) cancels the timer that the timer handle names, schedules no
  timer, and calls the Transport's close once: a sequence of triggers calls the
  Transport's close once per trigger, and the pending timers after it are the ones
  pending before, without the one that the timer handle names.
\<close>

theorem close_per_trigger:
  assumes "\<forall>e \<in> set evs. e = CallClose \<or> e = TransportDisconnected"
  shows "client_closes (run s evs) = client_closes s + length evs
       \<and> timers (run s evs)
           = (if evs = [] then timers s
              else filter (\<lambda>t. fst t \<noteq> pingLooper s) (timers s))"
  using assms
proof (induction evs arbitrary: s)
  case Nil
  show ?case by (simp add: run_Nil)
next
  case (Cons e evs)
  have e: "step s e = close s"
    using Cons.prems by (auto simp: handleDisconnect_def)
  have r: "run s (e # evs) = run (close s) evs"
    by (simp add: run_Cons e)
  have ih: "client_closes (run (close s) evs) = client_closes (close s) + length evs
       \<and> timers (run (close s) evs)
           = (if evs = [] then timers (close s)
              else filter (\<lambda>t. fst t \<noteq> pingLooper (close s)) (timers (close s)))"
    using Cons.prems by (intro Cons.IH) simp
  have c: "client_closes (close s) = Suc (client_closes s)"
    and p: "pingLooper (close s) = pingLooper s"
    and t: "timers (close s) = filter (\<lambda>t. fst t \<noteq> pingLooper s) (timers s)"
    by (simp_all add: close_def clearTimeout_def client_close_def)
  show ?case
    unfolding r using ih by (simp add: c p t)
qed

text \<open>
  Three triggers on a fresh Session: three calls of the Transport's close, and no timer
  left.
\<close>

theorem close_per_trigger_witness:
  "client_closes (run (SmartBridge_new ''bridge'') [CallClose, TransportDisconnected, CallClose]) = 3
   \<and> timers (run (SmartBridge_new ''bridge'') [CallClose, TransportDisconnected, CallClose]) = []"
  using close_per_trigger [of "[CallClose, TransportDisconnected, CallClose]" "SmartBridge_new ''bridge''"]
  by (simp add: SmartBridge_new_def session_defs)

text \<open>
  Claim C4. The claim asks that nothing is scheduled once the Session has been closed, also
  when a probe resolves after the close. With a probe in flight (the idle timer has
  fired), an explicit close followed by the probe's resolution leaves a new timer of a
  probe cycle pending.
\<close>

theorem rearm_after_close:
  "ping_timers
     (run (SmartBridge_new ''bridge'')
        [TimerFires 1, CallClose,
         ProbeResolves 2 \<lparr> CommuniqueType = ''ReadResponse'',
                           Header = \<lparr> StatusCode = ''200 OK'', Url = ''/server/1/status/ping'' \<rparr>,
                           Body = None \<rparr>])
   = [(3, 60000, PingCallback)]"
  by (simp add: run_def SmartBridge_new_def session_defs ping_timers_def PING_INTERVAL_MS_def)

text \<open>
  Claim C3, as stated, fails: when the probe resolves before the timeout, the timeout
  timer is not cancelled; it is still pending after the \<^verbatim>\<open>then\<close> callback has run.
\<close>

theorem timeout_left_pending:
  "(2, 1000, TimeoutCallback) \<in> set (timers
     (run (SmartBridge_new ''bridge'')
        [TimerFires 1,
         ProbeResolves 2 \<lparr> CommuniqueType = ''ReadResponse'',
                           Header = \<lparr> StatusCode = ''200 OK'', Url = ''/server/1/status/ping'' \<rparr>,
                           Body = None \<rparr>]))"
  by (simp add: run_def SmartBridge_new_def session_defs PING_INTERVAL_MS_def PING_TIMEOUT_MS_def)

subsection \<open>The liveness loop\<close>

text \<open>
  The invariant of the liveness loop holds after the constructor and is kept by every
  step.
\<close>

lemma cycle_inv_new: "cycle_inv (SmartBridge_new bid)"
  by (simp add: cycle_inv_def SmartBridge_new_def session_defs ping_timers_def)

lemma racing_not_pingLooper:
  assumes "cycle_inv s" and "h \<in> set (racing s)"
  shows "h \<noteq> pingLooper s"
proof
  assume "h = pingLooper s"
  moreover from assms have "(h, PING_TIMEOUT_MS, TimeoutCallback) \<in> set (timers s)"
    by (simp add: cycle_inv_def)
  moreover from assms(1)
  have "\<forall>t \<in> set (timers s). snd (snd t) = PingCallback \<longleftrightarrow> fst t = pingLooper s"
    by (simp add: cycle_inv_def)
  ultimately show False by fastforce
qed

lemma racing_single:
  assumes "cycle_inv s" and "h \<in> set (racing s)"
  shows "racing s = [h]" and "ping_timers s = []"
    and "(h, PING_TIMEOUT_MS, TimeoutCallback) \<in> set (timers s)"
proof -
  from assms(2) have ne: "racing s \<noteq> []" by auto
  with assms(1) have len: "length (racing s) = 1" and "length (ping_timers s) = 0"
    by (cases "racing s"; simp add: cycle_inv_def)+
  then show "ping_timers s = []" by simp
  from len assms(2) show "racing s = [h]"
    by (cases "racing s") auto
  from assms show "(h, PING_TIMEOUT_MS, TimeoutCallback) \<in> set (timers s)"
    by (simp add: cycle_inv_def)
qed

lemma no_ping_timer:
  "ping_timers s = [] \<Longrightarrow> t \<in> set (timers s) \<Longrightarrow> snd (snd t) = TimeoutCallback"
  by (cases "snd (snd t)") (auto simp: ping_timers_def filter_empty_conv)

lemma racing_keeps_timers:
  assumes "cycle_inv s" and "h \<in> set (racing s)"
  shows "filter (\<lambda>t. fst t \<noteq> pingLooper s) (timers s) = timers s"
proof -
  have "\<forall>t \<in> set (timers s). snd (snd t) = TimeoutCallback"
    using no_ping_timer racing_single(2)[OF assms] by blast
  moreover from assms(1)
  have "\<forall>t \<in> set (timers s). snd (snd t) = PingCallback \<longleftrightarrow> fst t = pingLooper s"
    by (simp add: cycle_inv_def)
  ultimately have "\<forall>t \<in> set (timers s). fst t \<noteq> pingLooper s"
    by fastforce
  then show ?thesis by (simp add: filter_id_conv)
qed

lemma cycle_inv_close:
  assumes "cycle_inv s"
  shows "cycle_inv (close s)"
proof -
  have r: "\<forall>h \<in> set (racing s). h \<noteq> pingLooper s"
    using racing_not_pingLooper[OF assms] by blast
  have l: "length (filter (\<lambda>t. snd (snd t) = PingCallback)
                    (filter (\<lambda>t. fst t \<noteq> pingLooper s) (timers s)))
           \<le> length (ping_timers s)"
  proof -
    have "filter (\<lambda>t. snd (snd t) = PingCallback)
            (filter (\<lambda>t. fst t \<noteq> pingLooper s) (timers s))
          = filter (\<lambda>t. fst t \<noteq> pingLooper s) (ping_timers s)"
      by (simp add: ping_timers_def conj_commute)
    then show ?thesis by simp
  qed
  show ?thesis
    using assms r l
    by (auto simp: cycle_inv_def close_def clearTimeout_def client_close_def ping_timers_def
        distinct_map_filter)
qed


lemma cycle_inv_handleUnsolicited: "cycle_inv s \<Longrightarrow> cycle_inv (handleUnsolicited r s)"
  by (simp add: cycle_inv_def handleUnsolicited_def emit_def ping_timers_def)

lemma cycle_inv_settle_ok:
  assumes "cycle_inv s"
  shows "cycle_inv (settle_race h True s)"
proof (cases "h \<in> set (racing s)")
  case False
  then show ?thesis using assms by (simp add: settle_race_def)
next
  case True
  note r = racing_single[OF assms True]
  note keep = racing_keeps_timers[OF assms True]
  have np: "filter (\<lambda>t. snd (snd t) = PingCallback) (timers s) = []"
    using r(2) by (simp add: ping_timers_def)
  have st: "settle_race h True s =
      s\<lparr> racing := [], timers := timers s @ [(next_handle s, PING_INTERVAL_MS, PingCallback)],
         next_handle := Suc (next_handle s), pingLooper := next_handle s \<rparr>"
    using True
    by (simp add: settle_race_def ping_then_def setPingTimeout_def setTimeout_def
        clearTimeout_def keep r(1))
  have fresh: "\<forall>t \<in> set (timers s). fst t < next_handle s"
    using assms by (simp add: cycle_inv_def)
  have tmo: "\<forall>t \<in> set (timers s). snd (snd t) \<noteq> PingCallback"
    using np by (simp add: filter_empty_conv)
  have d: "distinct (map fst (timers s))"
    using assms by (simp add: cycle_inv_def)
  show ?thesis
    unfolding st cycle_inv_def
    using fresh tmo d by (auto simp: ping_timers_def np)
qed

lemma cycle_inv_settle_fail:
  assumes "cycle_inv s"
  shows "cycle_inv (settle_race h False s)"
proof (cases "h \<in> set (racing s)")
  case False
  then show ?thesis using assms by (simp add: settle_race_def)
next
  case True
  note r = racing_single[OF assms True]
  show ?thesis
    using assms True
    by (simp add: cycle_inv_def settle_race_def ping_catch_def client_close_def r(1)
        ping_timers_def)
qed

lemma find_handle:
  assumes "distinct (map fst ts)" and "(h, ms, cb) \<in> set ts"
  shows "find (\<lambda>t. fst t = h) ts = Some (h, ms, cb)"
  using assms by (induction ts) (auto simp: image_iff)

lemma find_handle_Some:
  "find (\<lambda>t. fst t = h) ts = Some (h', ms, cb) \<Longrightarrow> h' = h \<and> (h, ms, cb) \<in> set ts"
  by (induction ts) (auto split: if_splits)


lemma cycle_inv_timer_fires:
  assumes "cycle_inv s"
  shows "cycle_inv (timer_fires h s)"
proof (cases "find (\<lambda>t. fst t = h) (timers s)")
  case None
  then show ?thesis using assms by (simp add: timer_fires_def)
next
  case (Some t)
  obtain h' ms cb where t: "t = (h', ms, cb)" by (cases t)
  from Some t have h': "h' = h" and mem: "(h, ms, cb) \<in> set (timers s)"
    using find_handle_Some by fastforce+
  have d: "distinct (map fst (timers s))"
    and fresh: "\<forall>t \<in> set (timers s). fst t < next_handle s"
    and pl: "pingLooper s < next_handle s"
    and only: "\<forall>t \<in> set (timers s). snd (snd t) = PingCallback \<longleftrightarrow> fst t = pingLooper s"
    and tmo: "\<forall>h \<in> set (racing s). (h, PING_TIMEOUT_MS, TimeoutCallback) \<in> set (timers s)"
    and one: "length (ping_timers s) + length (racing s) \<le> 1"
    using assms by (simp_all add: cycle_inv_def)
  show ?thesis
  proof (cases cb)
    case PingCallback
    with mem only have hp: "h = pingLooper s" by fastforce
    from mem PingCallback have "(h, ms, cb) \<in> set (ping_timers s)"
      by (simp add: ping_timers_def)
    then have "ping_timers s \<noteq> []" by auto
    with one have nr: "racing s = []"
      by (cases "ping_timers s"; cases "racing s"; simp)
    have st: "timer_fires h s =
        s\<lparr> timers := filter (\<lambda>t. fst t \<noteq> h) (timers s)
                        @ [(next_handle s, PING_TIMEOUT_MS, TimeoutCallback)],
           next_handle := Suc (next_handle s),
           client_requests := client_requests s @ [(''ReadRequest'', ''/server/1/status/ping'', None)],
           racing := [next_handle s] \<rparr>"
      using Some t PingCallback hp nr
      by (simp add: timer_fires_def pingLoop_def setTimeout_def clearTimeout_def
          client_request_def)
    have rest: "\<forall>t \<in> set (filter (\<lambda>t. fst t \<noteq> h) (timers s)). snd (snd t) \<noteq> PingCallback"
      using only hp by auto
    then have np: "filter (\<lambda>t. snd (snd t) = PingCallback) (filter (\<lambda>t. fst t \<noteq> h) (timers s)) = []"
      unfolding filter_empty_conv by blast
    show ?thesis
      unfolding st cycle_inv_def
      using d fresh pl rest hp
      by (auto simp: ping_timers_def np distinct_map_filter simp del: filter_filter)
  next
    case TimeoutCallback
    show ?thesis
    proof (cases "h \<in> set (racing s)")
      case True
      note r = racing_single[OF assms True]
      have st: "timer_fires h s =
          s\<lparr> timers := filter (\<lambda>t. fst t \<noteq> h) (timers s), racing := [],
             client_closes := Suc (client_closes s) \<rparr>"
        using Some t TimeoutCallback True
        by (simp add: timer_fires_def settle_race_def ping_catch_def client_close_def r(1))
      have np: "filter (\<lambda>t. snd (snd t) = PingCallback) (filter (\<lambda>t. fst t \<noteq> h) (timers s)) = []"
        using r(2) by (simp add: ping_timers_def filter_empty_conv)
      show ?thesis
        unfolding st cycle_inv_def
        using d fresh pl only
        by (auto simp: ping_timers_def np distinct_map_filter simp del: filter_filter)
    next
      case False
      have st: "timer_fires h s = s\<lparr> timers := filter (\<lambda>t. fst t \<noteq> h) (timers s) \<rparr>"
        using Some t TimeoutCallback False
        by (simp add: timer_fires_def settle_race_def)
      have l: "length (filter (\<lambda>t. snd (snd t) = PingCallback)
                    (filter (\<lambda>t. fst t \<noteq> h) (timers s)))
               \<le> length (ping_timers s)"
      proof -
        have "filter (\<lambda>t. snd (snd t) = PingCallback) (filter (\<lambda>t. fst t \<noteq> h) (timers s))
              = filter (\<lambda>t. fst t \<noteq> h) (ping_timers s)"
          by (simp add: ping_timers_def conj_commute)
        then show ?thesis by simp
      qed
      have keep: "\<forall>h' \<in> set (racing s). h' \<noteq> h"
        using False by auto
      show ?thesis
        unfolding st cycle_inv_def
        using d fresh pl only tmo one l keep
        by (auto simp: ping_timers_def distinct_map_filter simp del: filter_filter)
    qed
  qed
qed

lemma cycle_inv_step: "cycle_inv s \<Longrightarrow> cycle_inv (step s e)"
  by (cases e)
     (simp_all add: cycle_inv_timer_fires cycle_inv_settle_ok cycle_inv_settle_fail
        cycle_inv_handleUnsolicited cycle_inv_close handleDisconnect_def)

lemma cycle_inv_run: "cycle_inv s \<Longrightarrow> cycle_inv (run s evs)"
  by (induction evs arbitrary: s) (simp_all add: run_Nil run_Cons cycle_inv_step)

lemma cycle_inv_reachable: "cycle_inv (run (SmartBridge_new bid) evs)"
  by (simp add: cycle_inv_run cycle_inv_new)


lemma probe_resolves_state:
  assumes "cycle_inv s" and "h \<in> set (racing s)"
  shows "settle_race h True s =
      s\<lparr> racing := [], timers := timers s @ [(next_handle s, PING_INTERVAL_MS, PingCallback)],
         next_handle := Suc (next_handle s), pingLooper := next_handle s \<rparr>"
  using assms(2)
  by (simp add: settle_race_def ping_then_def setPingTimeout_def setTimeout_def
      clearTimeout_def racing_keeps_timers[OF assms] racing_single(1)[OF assms])

lemma probe_rejects_state:
  assumes "cycle_inv s" and "h \<in> set (racing s)"
  shows "settle_race h False s = s\<lparr> racing := [], client_closes := Suc (client_closes s) \<rparr>"
  using assms(2)
  by (simp add: settle_race_def ping_catch_def client_close_def racing_single(1)[OF assms])

lemma timeout_fires_state:
  assumes "cycle_inv s" and "h \<in> set (racing s)"
  shows "timer_fires h s =
      s\<lparr> timers := filter (\<lambda>t. fst t \<noteq> h) (timers s), racing := [],
         client_closes := Suc (client_closes s) \<rparr>"
proof -
  have "distinct (map fst (timers s))"
    using assms(1) by (simp add: cycle_inv_def)
  then have "find (\<lambda>t. fst t = h) (timers s) = Some (h, PING_TIMEOUT_MS, TimeoutCallback)"
    using racing_single(3)[OF assms] by (rule find_handle)
  then show ?thesis
    using assms(2)
    by (simp add: timer_fires_def settle_race_def ping_catch_def client_close_def
        racing_single(1)[OF assms])
qed

lemma stale_timeout_fires:
  assumes "distinct (map fst (timers s))" and "(h, ms, TimeoutCallback) \<in> set (timers s)"
    and "h \<notin> set (racing s)"
  shows "timer_fires h s = clearTimeout h s"
proof -
  have "find (\<lambda>t. fst t = h) (timers s) = Some (h, ms, TimeoutCallback)"
    using assms(1,2) by (rule find_handle)
  then show ?thesis
    using assms(3) by (simp add: timer_fires_def settle_race_def clearTimeout_def)
qed

text \<open>
  Claim C3, amended. In every state reached from the constructor in which the race of a
  probe cycle is pending: if the probe resolves before the timeout timer fires, the
  Transport's close is not called, exactly one timer that starts a probe cycle is pending
  afterwards, with the idle interval as its delay, and no race is pending; the timeout
  timer is left pending, and when it fires later it only leaves the set of pending timers.
  If the timeout timer fires first, or the probe rejects first, the Transport's close is
  called once, and neither a race nor a timer that starts a probe cycle is pending
  afterwards.
\<close>

theorem liveness_race:
  assumes "s = run (SmartBridge_new bid) evs" and "h \<in> set (racing s)"
  shows "client_closes (step s (ProbeResolves h response)) = client_closes s
       \<and> ping_timers (step s (ProbeResolves h response))
           = [(next_handle s, PING_INTERVAL_MS, PingCallback)]
       \<and> racing (step s (ProbeResolves h response)) = []
       \<and> (h, PING_TIMEOUT_MS, TimeoutCallback) \<in> set (timers (step s (ProbeResolves h response)))
       \<and> step (step s (ProbeResolves h response)) (TimerFires h)
           = clearTimeout h (step s (ProbeResolves h response))
       \<and> client_closes (step s (TimerFires h)) = Suc (client_closes s)
       \<and> ping_timers (step s (TimerFires h)) = []
       \<and> racing (step s (TimerFires h)) = []
       \<and> client_closes (step s (ProbeRejects h e)) = Suc (client_closes s)
       \<and> ping_timers (step s (ProbeRejects h e)) = []
       \<and> racing (step s (ProbeRejects h e)) = []"
proof -
  have inv: "cycle_inv s"
    using assms(1) by (simp add: cycle_inv_reachable)
  note ok = probe_resolves_state[OF inv assms(2)]
  note rej = probe_rejects_state[OF inv assms(2)]
  note tmo = timeout_fires_state[OF inv assms(2)]
  note r = racing_single[OF inv assms(2)]
  have np: "filter (\<lambda>t. snd (snd t) = PingCallback) (timers s) = []"
    using r(2) by (simp add: ping_timers_def)
  have inv': "cycle_inv (step s (ProbeResolves h response))"
    using inv by (rule cycle_inv_step)
  have a: "client_closes (step s (ProbeResolves h response)) = client_closes s"
    by (simp add: ok)
  have b: "ping_timers (step s (ProbeResolves h response))
           = [(next_handle s, PING_INTERVAL_MS, PingCallback)]"
    by (simp add: ok ping_timers_def np)
  have c: "racing (step s (ProbeResolves h response)) = []"
    by (simp add: ok)
  have d: "(h, PING_TIMEOUT_MS, TimeoutCallback) \<in> set (timers (step s (ProbeResolves h response)))"
    using r(3) by (simp add: ok)
  have "distinct (map fst (timers (step s (ProbeResolves h response))))"
    using inv' by (simp add: cycle_inv_def)
  then have "timer_fires h (step s (ProbeResolves h response))
           = clearTimeout h (step s (ProbeResolves h response))"
    using d by (rule stale_timeout_fires) (use c in simp)
  then have e: "step (step s (ProbeResolves h response)) (TimerFires h)
           = clearTimeout h (step s (ProbeResolves h response))"
    by simp
  have f: "client_closes (step s (TimerFires h)) = Suc (client_closes s)"
    by (simp add: tmo)
  have "filter (\<lambda>t. snd (snd t) = PingCallback) (filter (\<lambda>t. fst t \<noteq> h) (timers s))
        = filter (\<lambda>t. fst t \<noteq> h) (filter (\<lambda>t. snd (snd t) = PingCallback) (timers s))"
    by (simp add: conj_commute)
  then have g: "ping_timers (step s (TimerFires h)) = []"
    by (simp add: tmo ping_timers_def np del: filter_filter)
  have i: "racing (step s (TimerFires h)) = []"
    by (simp add: tmo)
  have j: "client_closes (step s (ProbeRejects h e)) = Suc (client_closes s)"
    by (simp add: rej)
  have k: "ping_timers (step s (ProbeRejects h e)) = []"
    by (simp add: rej ping_timers_def np)
  have l: "racing (step s (ProbeRejects h e)) = []"
    by (simp add: rej)
  from a b c d e f g i j k l show ?thesis by blast
qed

text \<open>
  The first probe cycle of a fresh Session: its idle timer (handle 1) has fired, the race
  is named by the timeout timer's handle 2.
\<close>

theorem liveness_race_witness:
  "client_closes (step (run (SmartBridge_new ''bridge'') [TimerFires 1])
      (ProbeResolves 2 \<lparr> CommuniqueType = ''ReadResponse'',
                        Header = \<lparr> StatusCode = ''200 OK'', Url = ''/server/1/status/ping'' \<rparr>,
                        Body = None \<rparr>)) = 0
   \<and> ping_timers (step (run (SmartBridge_new ''bridge'') [TimerFires 1])
      (ProbeResolves 2 \<lparr> CommuniqueType = ''ReadResponse'',
                        Header = \<lparr> StatusCode = ''200 OK'', Url = ''/server/1/status/ping'' \<rparr>,
                        Body = None \<rparr>)) = [(3, 60000, PingCallback)]
   \<and> client_closes (step (run (SmartBridge_new ''bridge'') [TimerFires 1]) (TimerFires 2)) = 1
   \<and> ping_timers (step (run (SmartBridge_new ''bridge'') [TimerFires 1]) (TimerFires 2)) = []
   \<and> client_closes (step (run (SmartBridge_new ''bridge'') [TimerFires 1])
        (ProbeRejects 2 (Rejected ''closed''))) = 1"
proof -
  have h: "2 \<in> set (racing (run (SmartBridge_new ''bridge'') [TimerFires 1]))"
    by (simp add: run_def SmartBridge_new_def session_defs)
  have n: "next_handle (run (SmartBridge_new ''bridge'') [TimerFires 1]) = 3"
    and c: "client_closes (run (SmartBridge_new ''bridge'') [TimerFires 1]) = 0"
    by (simp_all add: run_def SmartBridge_new_def session_defs)
  show ?thesis
    using liveness_race [OF refl h, of
        "\<lparr> CommuniqueType = ''ReadResponse'',
           Header = \<lparr> StatusCode = ''200 OK'', Url = ''/server/1/status/ping'' \<rparr>,
           Body = None \<rparr>" "Rejected ''closed''"] n c
    by (simp add: PING_INTERVAL_MS_def)
qed

end
